theory Spec2Isabelle
  imports Main
begin

section \<open>The useApiRequest hook (src/useApiRequest.ts)\<close>

text \<open>
  The hook tracks one asynchronous request: its React state (data, status, error,
  retryCount, isFetched), a module-level cache shared by all instances, and the functions
  getCachedData, setData, reset, fetchWithRetry and fetch that act on them.

  Modelling decisions.
  \<^item> A JavaScript value (\<open>TData\<close>, \<open>TError\<close>, \<open>null\<close>) is a \<open>val\<close>; numbers are
    integers, objects are opaque references. \<open>truthy\<close> is JavaScript's boolean coercion.
  \<^item> State setters overwrite a field of the hook state; no function of the hook reads the
    React state back, so explicit state passing is exact.
  \<^item> The host's request function is an oracle: its k-th invocation settles with a fixed
    outcome after a fixed time. \<open>Inl\<close> is a rejection, \<open>Inr\<close> a resolved value.
  \<^item> A host callback returns \<open>None\<close> when it returns normally and \<open>Some e\<close> when it
    throws \<open>e\<close>. Callbacks do not call back into the hook; \<open>retryDelay\<close> is a total
    function.
  \<^item> An invocation runs without interleaving with other invocations. Every suspension
    point (\<open>await\<close>) appends the hook state that observers see at that moment to \<open>trace\<close>.
  \<^item> The dependency array \<open>deps\<close> only decides when React re-runs the effect; the effect
    body is \<open>auto_execute\<close>.
  \<^item> The cache is a plain JavaScript object, so a key is looked up along the prototype
    chain and the key \<open>__proto__\<close> addresses the prototype itself. Objects of type
    \<open>val\<close> are opaque: they have no property \<open>data\<close> or \<open>timestamp\<close>.
\<close>

subsection \<open>Values\<close>

datatype val = Null | Undefined | Bool bool | Num int | Str string | Obj nat

fun truthy :: "val \<Rightarrow> bool" where
  "truthy Null = False"
| "truthy Undefined = False"
| "truthy (Bool b) = b"
| "truthy (Num n) = (n \<noteq> 0)"
| "truthy (Str s) = (s \<noteq> [])"
| "truthy (Obj r) = True"

subsection \<open>Types of the hook\<close>

datatype RequestStatus = Idle | Loading | Success | Error

type_synonym callback = "val \<Rightarrow> val option"

text \<open>\<open>UseApiRequestOptions\<close>: every property may be missing (\<open>None\<close>).\<close>

record UseApiRequestOptions =
  opt_manual :: "bool option"
  opt_initialData :: "val option"
  opt_onSuccess :: "callback option"
  opt_onError :: "callback option"
  opt_delay :: "int option"
  opt_cache :: "bool option"
  opt_cacheKey :: "string option"
  opt_cacheTTL :: "int option"
  opt_autoRetry :: "bool option"
  opt_maxRetries :: "int option"
  opt_retryDelay :: "(nat \<Rightarrow> int) option"

text \<open>The destructured options, defaults applied (lines 99 to 112).\<close>

record config =
  manual :: bool
  initialData :: val
  onSuccess :: "callback option"
  onError :: "callback option"
  delay :: int
  shouldCache :: bool
  cacheKey :: "string option"
  cacheTTL :: int
  autoRetry :: bool
  maxRetries :: int
  retryDelay :: "nat \<Rightarrow> int"

text \<open>Line 111: \<open>(attempt) => Math.min(1000 * 2 ** attempt, 30000)\<close>.\<close>

definition default_retryDelay :: "nat \<Rightarrow> int" where
  "default_retryDelay attempt = min (1000 * 2 ^ attempt) 30000"

definition or_default :: "'a option \<Rightarrow> 'a \<Rightarrow> 'a" where
  "or_default x d = (case x of None \<Rightarrow> d | Some v \<Rightarrow> v)"

text \<open>A destructuring default also replaces an explicit \<open>undefined\<close>.\<close>

definition destructure :: "UseApiRequestOptions \<Rightarrow> config" where
  "destructure options =
     \<lparr> manual = or_default (opt_manual options) False,
       initialData = (case opt_initialData options of
                        None \<Rightarrow> Null | Some Undefined \<Rightarrow> Null | Some v \<Rightarrow> v),
       onSuccess = opt_onSuccess options,
       onError = opt_onError options,
       delay = or_default (opt_delay options) 0,
       shouldCache = or_default (opt_cache options) False,
       cacheKey = opt_cacheKey options,
       cacheTTL = or_default (opt_cacheTTL options) (5 * 60 * 1000),
       autoRetry = or_default (opt_autoRetry options) False,
       maxRetries = or_default (opt_maxRetries options) 3,
       retryDelay = or_default (opt_retryDelay options) default_retryDelay \<rparr>"

text \<open>\<open>CacheItem\<close> (lines 82 to 85) and the module-level \<open>cache\<close> (line 87).\<close>

datatype CacheItem = CacheItem (item_data: val) (timestamp: int)

text \<open>The five \<open>useState\<close> cells (lines 137 to 143).\<close>

record hook_state =
  data :: val
  status :: RequestStatus
  error :: val
  retryCount :: nat
  isFetched :: bool

text \<open>
  Everything an invocation reads or writes: the hook state, the shared cache, the clock
  \<open>Date.now()\<close>, the number of invocations of the request function so far, and the hook
  states seen at suspension points.
\<close>

record world =
  hook :: hook_state
  cache :: "string \<rightharpoonup> CacheItem"
  now :: int
  calls :: nat
  trace :: "hook_state list"

record response =
  outcome :: "val + val"
  elapsed :: nat

type_synonym request_fn = "nat \<Rightarrow> response"

subsection \<open>State setters\<close>

definition setDataState :: "val \<Rightarrow> world \<Rightarrow> world" where
  "setDataState v w = w\<lparr>hook := (hook w)\<lparr>data := v\<rparr>\<rparr>"

definition setStatus :: "RequestStatus \<Rightarrow> world \<Rightarrow> world" where
  "setStatus s w = w\<lparr>hook := (hook w)\<lparr>status := s\<rparr>\<rparr>"

definition setError :: "val \<Rightarrow> world \<Rightarrow> world" where
  "setError e w = w\<lparr>hook := (hook w)\<lparr>error := e\<rparr>\<rparr>"

definition setRetryCount :: "nat \<Rightarrow> world \<Rightarrow> world" where
  "setRetryCount n w = w\<lparr>hook := (hook w)\<lparr>retryCount := n\<rparr>\<rparr>"

definition setIsFetched :: "bool \<Rightarrow> world \<Rightarrow> world" where
  "setIsFetched b w = w\<lparr>hook := (hook w)\<lparr>isFetched := b\<rparr>\<rparr>"

subsection \<open>Suspension points\<close>

text \<open>\<open>await new Promise(resolve => setTimeout(resolve, ms))\<close>; a negative time is 0.\<close>

definition sleep :: "int \<Rightarrow> world \<Rightarrow> world" where
  "sleep ms w = w\<lparr>trace := trace w @ [hook w], now := now w + max 0 ms\<rparr>"

text \<open>\<open>await requestFnRef.current()\<close> (line 187).\<close>

definition await_request :: "request_fn \<Rightarrow> world \<Rightarrow> (val + val) \<times> world" where
  "await_request requestFn w =
     (let r = requestFn (calls w) in
      (outcome r,
       w\<lparr>trace := trace w @ [hook w], calls := calls w + 1,
         now := now w + int (elapsed r)\<rparr>))"

text \<open>\<open>cb?.(x)\<close>: \<open>Some e\<close> when the callback is present and throws \<open>e\<close>.\<close>

definition call_cb :: "callback option \<Rightarrow> val \<Rightarrow> val option" where
  "call_cb cb x = (case cb of None \<Rightarrow> None | Some f \<Rightarrow> f x)"

subsection \<open>The cache\<close>

text \<open>
  The key under which \<open>shouldCache && cacheKey\<close> is truthy (lines 122, 152 and 194): the
  empty string is falsy, as is a missing key.
\<close>

definition usable_key :: "config \<Rightarrow> string option" where
  "usable_key c =
     (if shouldCache c
      then (case cacheKey c of None \<Rightarrow> None | Some k \<Rightarrow> if k = [] then None else Some k)
      else None)"

text \<open>
  The cache object \<open>const cache: Record<string, CacheItem<any>> = {}\<close> (line 87). The
  field \<open>cache\<close> of the world holds its own properties, with one exception: the slot
  \<open>__proto__\<close> holds the item that an assignment \<open>cache["__proto__"] = item\<close> has
  installed as the prototype of the object (\<open>None\<close>: the prototype is still
  \<open>Object.prototype\<close>). Such an assignment creates no own property.
\<close>

text \<open>The other property names of \<open>Object.prototype\<close>.\<close>

definition object_prototype_names :: "string list" where
  "object_prototype_names =
     [''constructor'', ''__defineGetter__'', ''__defineSetter__'', ''hasOwnProperty'',
      ''__lookupGetter__'', ''__lookupSetter__'', ''isPrototypeOf'', ''propertyIsEnumerable'',
      ''toString'', ''valueOf'', ''toLocaleString'']"

text \<open>
  What \<open>cache[k]\<close> evaluates to: a cache item (an own property, or the installed
  prototype for \<open>__proto__\<close>), a value inherited from an installed prototype (its
  \<open>data\<close> or \<open>timestamp\<close>), a built-in object or function of \<open>Object.prototype\<close>,
  or \<open>undefined\<close>.
\<close>

datatype property = Item CacheItem | Value val | Builtin | Missing

definition cache_read :: "(string \<rightharpoonup> CacheItem) \<Rightarrow> string \<Rightarrow> property" where
  "cache_read store k =
     (case store k of
        Some item \<Rightarrow> Item item
      | None \<Rightarrow>
          if k = ''__proto__'' then Builtin
          else
            (case store ''__proto__'' of
               Some proto \<Rightarrow>
                 if k = ''data'' then Value (item_data proto)
                 else if k = ''timestamp'' then Value (Num (timestamp proto))
                 else if k \<in> set object_prototype_names then Builtin
                 else Missing
             | None \<Rightarrow> if k \<in> set object_prototype_names then Builtin else Missing))"

text \<open>
  \<open>delete cache[k]\<close> removes an own property; the object has no own property
  \<open>__proto__\<close>, so for that key nothing is removed.
\<close>

definition cache_delete :: "string \<Rightarrow> world \<Rightarrow> world" where
  "cache_delete k w = (if k = ''__proto__'' then w else w\<lparr>cache := (cache w)(k := None)\<rparr>)"

text \<open>
  Lines 121 to 134. The result \<open>Null\<close> is the source's \<open>null\<close>. A truthy
  \<open>cachedItem\<close> that is not a cache item has no \<open>timestamp\<close>, so the difference is
  \<open>NaN\<close>, \<open>isExpired\<close> is false and the result is its \<open>data\<close>, \<open>undefined\<close>.
\<close>

definition getCachedData :: "config \<Rightarrow> world \<Rightarrow> val \<times> world" where
  "getCachedData c w =
     (case usable_key c of
        None \<Rightarrow> (Null, w)
      | Some k \<Rightarrow>
          (case cache_read (cache w) k of
             Missing \<Rightarrow> (Null, w)
           | Value v \<Rightarrow> if truthy v then (Undefined, w) else (Null, w)
           | Builtin \<Rightarrow> (Undefined, w)
           | Item cachedItem \<Rightarrow>
               (let isExpired = (now w - timestamp cachedItem > cacheTTL c) in
                if isExpired then (Null, cache_delete k w)
                else (item_data cachedItem, w))))"

text \<open>
  The assignment \<open>cache[cacheKey] = { data: v, timestamp: Date.now() }\<close>: a new own
  property, or for \<open>__proto__\<close> a new prototype.
\<close>

definition cache_store :: "string \<Rightarrow> val \<Rightarrow> world \<Rightarrow> world" where
  "cache_store k v w = w\<lparr>cache := (cache w)(k \<mapsto> CacheItem v (now w))\<rparr>"

subsection \<open>setData and reset\<close>

text \<open>Lines 146 to 159.\<close>

definition setData :: "config \<Rightarrow> val \<Rightarrow> world \<Rightarrow> world" where
  "setData c newData w =
     (let w1 = setDataState newData w in
      if newData \<noteq> Null then
        (let w2 = setStatus Success w1 in
         case usable_key c of
           None \<Rightarrow> w2
         | Some k \<Rightarrow> if truthy newData then cache_store k newData w2 else w2)
      else w1)"

text \<open>Lines 162 to 168.\<close>

definition reset :: "config \<Rightarrow> world \<Rightarrow> world" where
  "reset c w =
     setIsFetched False (setRetryCount 0 (setError Null
       (setStatus Idle (setDataState (initialData c) w))))"

subsection \<open>fetchWithRetry and fetch\<close>

text \<open>
  How the promise of \<open>fetchWithRetry\<close> settles: \<open>return cachedData\<close> (line 179),
  \<open>return result\<close> (line 202), or a rejection (\<open>throw err\<close>, line 221, or an exception
  of \<open>onError\<close> inside the catch block).
\<close>

datatype settled = FromCache val | FromRequest val | Rejected val

text \<open>What the caller awaiting the promise receives.\<close>

fun promise :: "settled \<Rightarrow> val + val" where
  "promise (FromCache v) = Inr v"
| "promise (FromRequest v) = Inr v"
| "promise (Rejected e) = Inl e"

text \<open>
  The \<open>try\<close> block (lines 172 to 202): \<open>Inr\<close> when it returns, \<open>Inl\<close> with the thrown
  value when control passes to the \<open>catch\<close> block.
\<close>

definition try_block :: "request_fn \<Rightarrow> config \<Rightarrow> world \<Rightarrow> (val \<times> world) + (settled \<times> world)" where
  "try_block requestFn c w =
     (let (cachedData, w1) = getCachedData c w in
      if truthy cachedData then
        (let w2 = setStatus Success (setData c cachedData w1) in
         case call_cb (onSuccess c) cachedData of
           Some thrown \<Rightarrow> Inl (thrown, w2)
         | None \<Rightarrow> Inr (FromCache cachedData, w2))
      else
        (let w2 = (if delay c > 0 then sleep (delay c) w1 else w1);
             (r, w3) = await_request requestFn w2 in
         case r of
           Inl err \<Rightarrow> Inl (err, w3)
         | Inr result \<Rightarrow>
             (let w4 = setIsFetched True (setStatus Success (setData c result w3)) in
              case call_cb (onSuccess c) result of
                Some thrown \<Rightarrow> Inl (thrown, w4)
              | None \<Rightarrow>
                  (let w5 = (case usable_key c of
                               None \<Rightarrow> w4
                             | Some k \<Rightarrow> cache_store k result w4)
                   in Inr (FromRequest result, setRetryCount 0 w5)))))"

text \<open>Lines 171 to 226: the \<open>try\<close> block, then the \<open>catch\<close> block with the retry.\<close>

function fetchWithRetry :: "request_fn \<Rightarrow> config \<Rightarrow> nat \<Rightarrow> world \<Rightarrow> settled \<times> world" where
  "fetchWithRetry requestFn c attempt w =
     (case try_block requestFn c w of
        Inr returned \<Rightarrow> returned
      | Inl (err, w1) \<Rightarrow>
          (let w2 = setIsFetched True (setStatus Error (setError err w1)) in
           case call_cb (onError c) err of
             Some thrown \<Rightarrow> (Rejected thrown, w2)
           | None \<Rightarrow>
               if autoRetry c \<and> int attempt < maxRetries c then
                 (let nextAttempt = attempt + 1;
                      w3 = setRetryCount nextAttempt w2;
                      nextDelay = retryDelay c attempt
                  in fetchWithRetry requestFn c nextAttempt (sleep nextDelay w3))
               else (Rejected err, w2)))"
  by pat_completeness auto
termination
  by (relation "measure (\<lambda>(requestFn, c, attempt, w). nat (maxRetries c - int attempt))") auto

declare fetchWithRetry.simps [simp del]

text \<open>Lines 229 to 232; \<open>refetch\<close> is this function (line 252).\<close>

definition fetch :: "request_fn \<Rightarrow> config \<Rightarrow> world \<Rightarrow> settled \<times> world" where
  "fetch requestFn c w = fetchWithRetry requestFn c 0 (setStatus Loading w)"

subsection \<open>Construction\<close>

text \<open>The initial values of the state cells (lines 137 to 143).\<close>

definition initial_state :: "config \<Rightarrow> world \<Rightarrow> world" where
  "initial_state c w =
     (let (cached, w1) = getCachedData c w in
      w1\<lparr>hook :=
           \<lparr> data = (if truthy cached then cached else initialData c),
             status = (if manual c then Idle else Loading),
             error = Null,
             retryCount = 0,
             isFetched = False \<rparr>\<rparr>)"

text \<open>
  The body of the effect of lines 235 to 242, run after the first render and after each
  render that changed \<open>deps\<close>; the rejection is swallowed by \<open>catch\<close>.
\<close>

definition auto_execute :: "request_fn \<Rightarrow> config \<Rightarrow> world \<Rightarrow> world" where
  "auto_execute requestFn c w = (if \<not> manual c then snd (fetch requestFn c w) else w)"

text \<open>Mounting a component that uses the hook: first render, then the effect.\<close>

definition useApiRequest :: "request_fn \<Rightarrow> UseApiRequestOptions \<Rightarrow> world \<Rightarrow> world" where
  "useApiRequest requestFn options w =
     (let c = destructure options in auto_execute requestFn c (initial_state c w))"

section \<open>Notions used in the properties\<close>

text \<open>The lookup of \<open>fetchWithRetry\<close> (line 174) does not yield a truthy value.\<close>

definition cache_miss :: "config \<Rightarrow> world \<Rightarrow> bool" where
  "cache_miss c w = (\<not> truthy (fst (getCachedData c w)))"

text \<open>The hook states seen at the suspension points passed between \<open>w\<close> and \<open>w'\<close>.\<close>

definition in_flight :: "world \<Rightarrow> world \<Rightarrow> hook_state list" where
  "in_flight w w' = drop (length (trace w)) (trace w')"

text \<open>What an invocation shows to the caller and the observers: all but the cache.\<close>

definition observed :: "settled \<times> world \<Rightarrow> settled \<times> hook_state \<times> int \<times> nat \<times> hook_state list" where
  "observed r = (fst r, hook (snd r), now (snd r), calls (snd r), trace (snd r))"

text \<open>A cache slot that \<open>fetchWithRetry\<close> never takes for a hit, whatever the time.\<close>

definition falsy_entry :: "CacheItem option \<Rightarrow> bool" where
  "falsy_entry entry = (case entry of None \<Rightarrow> True | Some item \<Rightarrow> \<not> truthy (item_data item))"

text \<open>
  Two worlds that differ at most in the slot \<open>k\<close> of the cache, where both hold an entry
  that is never a hit.
\<close>

definition miss_equiv :: "string \<Rightarrow> world \<Rightarrow> world \<Rightarrow> bool" where
  "miss_equiv k w1 w2 =
     (hook w1 = hook w2 \<and> now w1 = now w2 \<and> calls w1 = calls w2 \<and> trace w1 = trace w2
      \<and> (\<forall>k'. k' \<noteq> k \<longrightarrow> cache w1 k' = cache w2 k')
      \<and> (cache w1 k = cache w2 k \<or> falsy_entry (cache w1 k) \<and> falsy_entry (cache w2 k)))"

section \<open>Scenarios\<close>

text \<open>No options at all, and a fresh process: empty cache, clock at 0.\<close>

definition opts_default :: UseApiRequestOptions where
  "opts_default =
     \<lparr> opt_manual = None, opt_initialData = None, opt_onSuccess = None, opt_onError = None,
       opt_delay = None, opt_cache = None, opt_cacheKey = None, opt_cacheTTL = None,
       opt_autoRetry = None, opt_maxRetries = None, opt_retryDelay = None \<rparr>"

definition world0 :: world where
  "world0 =
     \<lparr> hook = \<lparr> data = Null, status = Idle, error = Null, retryCount = 0, isFetched = False \<rparr>,
       cache = Map.empty, now = 0, calls = 0, trace = [] \<rparr>"

definition opts_manual :: UseApiRequestOptions where
  "opts_manual = opts_default\<lparr>opt_manual := Some True\<rparr>"

definition cfg_retry2 :: config where
  "cfg_retry2 =
     destructure (opts_default\<lparr>opt_manual := Some True, opt_autoRetry := Some True,
       opt_maxRetries := Some 2\<rparr>)"

definition cfg_cached :: config where
  "cfg_cached =
     destructure (opts_default\<lparr>opt_manual := Some True, opt_cache := Some True,
       opt_cacheKey := Some ''u1'', opt_cacheTTL := Some 1000, opt_autoRetry := Some True,
       opt_maxRetries := Some 2\<rparr>)"

text \<open>
  Request functions: one that fails with a new error object each time, one that fails with
  the same error each time, one that fails four times and then resolves with 7, and one that
  resolves with 0.
\<close>

definition failing_request :: request_fn where
  "failing_request k = \<lparr> outcome = Inl (Obj k), elapsed = 5 \<rparr>"

definition timeout_request :: request_fn where
  "timeout_request k = \<lparr> outcome = Inl (Str ''timeout''), elapsed = 5 \<rparr>"

definition flaky_request :: request_fn where
  "flaky_request k =
     (if k < 4 then \<lparr> outcome = Inl (Obj k), elapsed = 5 \<rparr>
      else \<lparr> outcome = Inr (Num 7), elapsed = 5 \<rparr>)"

definition zero_request :: request_fn where
  "zero_request k = \<lparr> outcome = Inr (Num 0), elapsed = 5 \<rparr>"

text \<open>
  The world after an invocation whose retries are exhausted; then after the host calls
  \<open>setData(7)\<close>; then long after that, when the entry has expired. And the world after
  an invocation that resolved with 0.
\<close>

definition world_failed :: world where
  "world_failed = snd (fetch flaky_request cfg_cached world0)"

definition world_set :: world where
  "world_set = setData cfg_cached (Num 7) world_failed"

definition world_zero :: world where
  "world_zero = snd (fetch zero_request cfg_cached world0)"

definition world_later :: world where
  "world_later = world_set\<lparr>now := 5000\<rparr>"

text \<open>
  A host whose onSuccess always throws, with one retry and no caching; a request function
  that resolves with 7; and a world in which data is 1.
\<close>

definition cfg_throwing :: config where
  "cfg_throwing =
     destructure (opts_default\<lparr>opt_manual := Some True, opt_autoRetry := Some True,
       opt_maxRetries := Some 1, opt_onSuccess := Some (\<lambda>v. Some (Str ''boom''))\<rparr>)"

definition seven_request :: request_fn where
  "seven_request k = \<lparr> outcome = Inr (Num 7), elapsed = 5 \<rparr>"

definition world_one :: world where
  "world_one = setData cfg_throwing (Num 1) world0"

section \<open>Properties\<close>

lemmas ex_defs = opts_default_def world0_def cfg_cached_def cfg_retry2_def failing_request_def
  timeout_request_def flaky_request_def zero_request_def

lemmas lookup_defs = getCachedData_def cache_read_def cache_delete_def

lemmas hook_defs = fetch_def try_block_def lookup_defs object_prototype_names_def usable_key_def setData_def
  setDataState_def setStatus_def setError_def setRetryCount_def setIsFetched_def sleep_def await_request_def
  call_cb_def cache_store_def destructure_def or_default_def default_retryDelay_def

lemmas setter_defs = setDataState_def setStatus_def setError_def setRetryCount_def setIsFetched_def

subsection \<open>The cache lookup\<close>

text \<open>
  A lookup under a key with an item in its slot: the expiry test of lines 127 to 133.
  With nothing in the slot the result is \<open>null\<close> or \<open>undefined\<close>, whatever the
  prototype chain provides, and nothing changes.
\<close>

lemma getCachedData_item:
  assumes "usable_key c = Some k" and "cache w k = Some cachedItem"
  shows "getCachedData c w =
           (if now w - timestamp cachedItem > cacheTTL c then (Null, cache_delete k w)
            else (item_data cachedItem, w))"
  using assms by (simp add: getCachedData_def cache_read_def Let_def)

lemma getCachedData_absent:
  assumes "usable_key c = Some k" and "cache w k = None"
  shows "\<not> truthy (fst (getCachedData c w)) \<and> snd (getCachedData c w) = w"
  using assms by (simp add: getCachedData_def cache_read_def split: option.splits)

lemma getCachedData_frame:
  "hook (snd (getCachedData c w)) = hook w \<and> now (snd (getCachedData c w)) = now w
   \<and> calls (snd (getCachedData c w)) = calls w \<and> trace (snd (getCachedData c w)) = trace w"
  by (simp add: lookup_defs Let_def split: option.splits property.splits)

lemma getCachedData_hook_update:
  "getCachedData c (w\<lparr>hook := h\<rparr>) = (fst (getCachedData c w), (snd (getCachedData c w))\<lparr>hook := h\<rparr>)"
  by (simp add: lookup_defs Let_def split: option.splits property.splits)

lemma cache_miss_hook_update: "cache_miss c (w\<lparr>hook := h\<rparr>) = cache_miss c w"
  by (simp add: cache_miss_def getCachedData_hook_update)

text \<open>
  A miss stays a miss as long as nothing is stored and the clock does not run backwards
  (an expired prototype is not removed, so the time matters).
\<close>

lemma cache_miss_persists:
  assumes "cache_miss c w" and "cache w' = cache (snd (getCachedData c w))" and "now w \<le> now w'"
  shows "cache_miss c w'"
proof (cases "usable_key c")
  case None
  then show ?thesis by (simp add: cache_miss_def getCachedData_def)
next
  case (Some k)
  show ?thesis
  proof (cases "cache w k")
    case None
    then have "cache w' k = None"
      using assms(2) getCachedData_absent [OF Some None] by simp
    then show ?thesis
      using getCachedData_absent [OF Some] by (simp add: cache_miss_def)
  next
    case (Some cachedItem)
    note item = getCachedData_item [OF \<open>usable_key c = Some k\<close> Some]
    show ?thesis
    proof (cases "now w - timestamp cachedItem > cacheTTL c")
      case True
      show ?thesis
      proof (cases "k = ''__proto__''")
        case True
        then have "cache w' k = Some cachedItem"
          using assms(2) item Some \<open>now w - timestamp cachedItem > cacheTTL c\<close>
          by (simp add: cache_delete_def)
        moreover have "now w' - timestamp cachedItem > cacheTTL c"
          using assms(3) \<open>now w - timestamp cachedItem > cacheTTL c\<close> by simp
        ultimately show ?thesis
          using getCachedData_item [OF \<open>usable_key c = Some k\<close>, of w' cachedItem]
          by (simp add: cache_miss_def)
      next
        case False
        then have "cache w' k = None"
          using assms(2) item \<open>now w - timestamp cachedItem > cacheTTL c\<close>
          by (simp add: cache_delete_def)
        then show ?thesis
          using getCachedData_absent [OF \<open>usable_key c = Some k\<close>] by (simp add: cache_miss_def)
      qed
    next
      case False
      then have "cache w' k = Some cachedItem" and "\<not> truthy (item_data cachedItem)"
        using assms(1,2) item Some by (simp_all add: cache_miss_def)
      then show ?thesis
        using getCachedData_item [OF \<open>usable_key c = Some k\<close>, of w' cachedItem]
        by (simp add: cache_miss_def)
    qed
  qed
qed

subsection \<open>The scenarios, evaluated\<close>

lemma world_failed_simps:
  "hook world_failed =
     \<lparr> data = Null, status = Error, error = Obj 2, retryCount = 2, isFetched = True \<rparr>"
  "cache world_failed = Map.empty"
  "now world_failed = 3015"
  "calls world_failed = 3"
  by (simp_all add: world_failed_def ex_defs hook_defs fetchWithRetry.simps)

lemma world_zero_simps:
  "hook world_zero =
     \<lparr> data = Num 0, status = Success, error = Null, retryCount = 0, isFetched = True \<rparr>"
  "cache world_zero = [''u1'' \<mapsto> CacheItem (Num 0) 5]"
  "now world_zero = 5"
  "calls world_zero = 1"
  by (simp_all add: world_zero_def ex_defs hook_defs fetchWithRetry.simps)

lemma world_set_simps:
  "hook world_set =
     \<lparr> data = Num 7, status = Success, error = Obj 2, retryCount = 2, isFetched = True \<rparr>"
  "cache world_set = [''u1'' \<mapsto> CacheItem (Num 7) 3015]"
  "now world_set = 3015"
  "calls world_set = 3"
  by (simp_all add: world_set_def world_failed_simps cfg_cached_def opts_default_def hook_defs)

subsection \<open>reset\<close>

text \<open>
  C5. In any state, reset sets data to the configured initialData, error to null, the retry
  counter to 0, isFetched to false and status to Idle, and leaves everything outside the
  hook state alone; so a second reset changes nothing.
\<close>

theorem reset_state_idempotent:
  "hook (reset c w) =
     \<lparr> data = initialData c, status = Idle, error = Null, retryCount = 0, isFetched = False \<rparr>
   \<and> cache (reset c w) = cache w \<and> now (reset c w) = now w
   \<and> calls (reset c w) = calls w \<and> trace (reset c w) = trace w
   \<and> reset c (reset c w) = reset c w"
  by (simp add: reset_def setIsFetched_def setRetryCount_def setError_def setStatus_def
      setDataState_def)

subsection \<open>The default retry delay\<close>

lemma default_retryDelay_small: "attempt \<le> 4 \<Longrightarrow> default_retryDelay attempt = 1000 * 2 ^ attempt"
proof -
  assume "attempt \<le> 4"
  then have "(2::int) ^ attempt \<le> 2 ^ 4"
    by (intro power_increasing) simp_all
  then show ?thesis by (simp add: default_retryDelay_def)
qed

lemma default_retryDelay_capped: "5 \<le> attempt \<Longrightarrow> default_retryDelay attempt = 30000"
proof -
  assume "5 \<le> attempt"
  then have "(2::int) ^ 5 \<le> 2 ^ attempt"
    by (intro power_increasing) simp_all
  then show ?thesis by (simp add: default_retryDelay_def)
qed

text \<open>
  C8. When the options give no retryDelay, the hook uses the function
  attempt -> min(1000 * 2^attempt, 30000): 1000 at attempt 0, 16000 at attempt 4 and the
  cap 30000 at attempt 10.
\<close>

theorem default_retryDelay_values:
  "retryDelay (destructure (options\<lparr>opt_retryDelay := None\<rparr>)) = (\<lambda>attempt. min (1000 * 2 ^ attempt) 30000)
   \<and> default_retryDelay 0 = 1000
   \<and> default_retryDelay 4 = 16000
   \<and> default_retryDelay 10 = 30000"
proof -
  have "retryDelay (destructure (options\<lparr>opt_retryDelay := None\<rparr>)) = default_retryDelay"
    by (simp add: destructure_def or_default_def)
  moreover have "default_retryDelay = (\<lambda>attempt. min (1000 * 2 ^ attempt) 30000)"
    by (simp add: default_retryDelay_def fun_eq_iff)
  moreover have "default_retryDelay 0 = 1000" "default_retryDelay 4 = 16000"
    using default_retryDelay_small [of 0] default_retryDelay_small [of 4] by simp_all
  moreover have "default_retryDelay 10 = 30000"
    using default_retryDelay_capped [of 10] by simp
  ultimately show ?thesis by simp
qed

subsection \<open>setData\<close>

text \<open>
  With caching enabled under the key "u1", \<open>setData(0)\<close> sets the status to Success but
  stores nothing: the value is non-null and falsy.
\<close>

theorem setData_falsy_counterexample:
  "shouldCache cfg_cached \<and> cacheKey cfg_cached = Some ''u1'' \<and> Num 0 \<noteq> Null
   \<and> cache (setData cfg_cached (Num 0) world0) ''u1'' = None"
  by (simp add: ex_defs hook_defs)

text \<open>
  C3 (amended). In any state, setData(value) overwrites data with value; when value is
  non-null it sets the status to Success, and when moreover value is truthy and caching is
  enabled with a non-empty cacheKey it stores value in the cache with the current time.
  Otherwise status and cache are unchanged. It never changes error, the retry counter or
  isFetched.
\<close>

theorem setData_effect:
  "data (hook (setData c v w)) = v
   \<and> status (hook (setData c v w)) = (if v \<noteq> Null then Success else status (hook w))
   \<and> cache (setData c v w) =
       (case usable_key c of
          None \<Rightarrow> cache w
        | Some k \<Rightarrow> if truthy v then (cache w)(k \<mapsto> CacheItem v (now w)) else cache w)
   \<and> error (hook (setData c v w)) = error (hook w)
   \<and> retryCount (hook (setData c v w)) = retryCount (hook w)
   \<and> isFetched (hook (setData c v w)) = isFetched (hook w)"
proof (cases "v = Null")
  case True
  then show ?thesis
    by (simp add: setData_def setter_defs Let_def split: option.splits)
next
  case False
  then show ?thesis
    by (simp add: setData_def setter_defs cache_store_def Let_def split: option.splits)
qed

subsection \<open>Expiry of a cache entry\<close>

text \<open>
  The value \<open>null\<close> stored at time 0 with a TTL of 1000 and read at time 5000: the lookup
  returns \<open>null\<close>, which is the stored value, although the entry has expired.
\<close>

theorem getCachedData_null_counterexample:
  "usable_key cfg_cached = Some ''u1''
   \<and> \<not> (fst (getCachedData cfg_cached ((cache_store ''u1'' Null world0)\<lparr>now := 5000\<rparr>)) = Null
          \<longleftrightarrow> 5000 - now world0 \<le> cacheTTL cfg_cached)"
  by (simp add: ex_defs hook_defs)

text \<open>
  C2 (amended). Let caching be enabled under a key k other than \<open>__proto__\<close>, let v be
  stored under k at time \<open>now w\<close> and let the lookup happen at time t. If
  t - now w <= cacheTTL the lookup returns v and leaves the store as it is; otherwise it
  returns null and removes the entry. So for a non-null v the lookup returns v if and only
  if t - now w <= cacheTTL.
\<close>

theorem getCachedData_after_store:
  assumes "usable_key c = Some k" and "k \<noteq> ''__proto__''"
  shows "getCachedData c ((cache_store k v w)\<lparr>now := t\<rparr>) =
           (if t - now w \<le> cacheTTL c then (v, (cache_store k v w)\<lparr>now := t\<rparr>)
            else (Null, w\<lparr>now := t, cache := (cache w)(k := None)\<rparr>))
         \<and> (v \<noteq> Null \<longrightarrow>
              (fst (getCachedData c ((cache_store k v w)\<lparr>now := t\<rparr>)) = v \<longleftrightarrow> t - now w \<le> cacheTTL c))"
  using assms by (simp add: lookup_defs cache_store_def Let_def)

text \<open>A value stored at time 0 with a TTL of 1000 is read at 1000 and gone at 1001.\<close>

theorem getCachedData_after_store_witness:
  "usable_key cfg_cached = Some ''u1''
   \<and> fst (getCachedData cfg_cached ((cache_store ''u1'' (Num 7) world0)\<lparr>now := 1000\<rparr>)) = Num 7
   \<and> fst (getCachedData cfg_cached ((cache_store ''u1'' (Num 7) world0)\<lparr>now := 1001\<rparr>)) = Null
   \<and> cache (snd (getCachedData cfg_cached ((cache_store ''u1'' (Num 7) world0)\<lparr>now := 1001\<rparr>))) ''u1'' = None"
proof -
  have key: "usable_key cfg_cached = Some ''u1''"
    by (simp add: ex_defs hook_defs)
  show ?thesis
    using key
      getCachedData_after_store [where k = "''u1''" and v = "Num 7" and w = world0 and t = 1000, OF key]
      getCachedData_after_store [where k = "''u1''" and v = "Num 7" and w = world0 and t = 1001, OF key]
    by (simp add: ex_defs destructure_def or_default_def)
qed

text \<open>
  Under the key \<open>__proto__\<close> the stored item becomes the prototype of the cache
  object: an expired item is reported as absent but stays installed, so a later lookup
  with a longer TTL reads it again.
\<close>

lemma getCachedData_prototype_key:
  assumes "usable_key c = Some ''__proto__''"
  shows "getCachedData c ((cache_store ''__proto__'' v w)\<lparr>now := t\<rparr>) =
           (if t - now w \<le> cacheTTL c then (v, (cache_store ''__proto__'' v w)\<lparr>now := t\<rparr>)
            else (Null, (cache_store ''__proto__'' v w)\<lparr>now := t\<rparr>))"
  using assms by (simp add: lookup_defs cache_store_def Let_def)

text \<open>
  Under a key that names a member of \<open>Object.prototype\<close> and has nothing stored, the
  lookup finds the built-in member and returns \<open>undefined\<close>.
\<close>

lemma getCachedData_inherited_name:
  assumes "usable_key c = Some ''constructor''" and "cache w ''constructor'' = None"
  shows "getCachedData c w = (Undefined, w)"
  using assms by (simp add: lookup_defs object_prototype_names_def split: option.splits)

subsection \<open>The number of invocations of the request function\<close>

lemma calls_mono_try_block:
  "case try_block requestFn c w of Inl (e, w1) \<Rightarrow> calls w \<le> calls w1 | Inr (r, w1) \<Rightarrow> calls w \<le> calls w1"
  using getCachedData_frame [of c w]
  by (auto simp: try_block_def Let_def case_prod_beta setData_def setter_defs cache_store_def
      sleep_def await_request_def split: sum.splits option.splits)

lemma calls_mono: "calls w \<le> calls (snd (fetchWithRetry requestFn c attempt w))"
proof (induction requestFn c attempt w rule: fetchWithRetry.induct)
  case (1 requestFn c attempt w)
  note tb = calls_mono_try_block [where requestFn = requestFn and c = c and w = w]
  show ?case
  proof (cases "try_block requestFn c w")
    case (Inr returned)
    then show ?thesis
      using tb by (auto simp: fetchWithRetry.simps [of requestFn c attempt w])
  next
    case (Inl thrown)
    obtain err w1 where thrown: "thrown = (err, w1)" by (cases thrown)
    have le: "calls w \<le> calls w1" using tb Inl thrown by simp
    let ?w2 = "setIsFetched True (setStatus Error (setError err w1))"
    let ?w' = "sleep (retryDelay c attempt) (setRetryCount (attempt + 1) ?w2)"
    show ?thesis
    proof (cases "call_cb (onError c) err = None \<and> autoRetry c \<and> int attempt < maxRetries c")
      case True
      then have "fetchWithRetry requestFn c attempt w = fetchWithRetry requestFn c (attempt + 1) ?w'"
        by (simp add: fetchWithRetry.simps [of requestFn c attempt w] Inl thrown)
      moreover have "calls ?w' \<le> calls (snd (fetchWithRetry requestFn c (attempt + 1) ?w'))"
        using "1.IH" [OF Inl [unfolded thrown] refl refl _ _ refl refl refl] True by simp
      moreover have "calls ?w' = calls w1"
        by (simp add: sleep_def setter_defs)
      ultimately show ?thesis using le by simp
    next
      case False
      then have "\<exists>e. fetchWithRetry requestFn c attempt w = (Rejected e, ?w2)"
        by (auto simp: fetchWithRetry.simps [of requestFn c attempt w] Inl thrown Let_def
            split: option.splits)
      then show ?thesis
        using le by (auto simp: setter_defs)
    qed
  qed
qed

lemma cache_miss_invokes:
  assumes "cache_miss c w"
  shows "calls w < calls (snd (fetchWithRetry requestFn c attempt w))"
proof -
  obtain v w0 where g: "getCachedData c w = (v, w0)" by (cases "getCachedData c w")
  let ?s = "if delay c > 0 then sleep (delay c) w0 else w0"
  obtain r w1 where a: "await_request requestFn ?s = (r, w1)" by (cases "await_request requestFn ?s")
  have c1: "calls w1 = calls w + 1"
    using a g getCachedData_frame [of c w] by (auto simp: await_request_def Let_def sleep_def)
  have nv: "\<not> truthy v" using assms g by (simp add: cache_miss_def)
  show ?thesis
  proof (cases "try_block requestFn c w")
    case (Inr returned)
    then have "calls (snd returned) = calls w1"
      using g a nv
      by (auto simp: try_block_def Let_def setData_def setter_defs cache_store_def
          split: sum.splits option.splits if_splits)
    then show ?thesis
      using c1 Inr by (simp add: fetchWithRetry.simps [of requestFn c attempt w])
  next
    case (Inl thrown)
    obtain err w2 where thrown: "thrown = (err, w2)" by (cases thrown)
    have c2: "calls w2 = calls w1"
      using Inl thrown g a nv
      by (auto simp: try_block_def Let_def setData_def setter_defs cache_store_def
          split: sum.splits option.splits if_splits)
    let ?w2 = "setIsFetched True (setStatus Error (setError err w2))"
    let ?w' = "sleep (retryDelay c attempt) (setRetryCount (attempt + 1) ?w2)"
    show ?thesis
    proof (cases "call_cb (onError c) err = None \<and> autoRetry c \<and> int attempt < maxRetries c")
      case True
      then have "fetchWithRetry requestFn c attempt w = fetchWithRetry requestFn c (attempt + 1) ?w'"
        by (simp add: fetchWithRetry.simps [of requestFn c attempt w] Inl thrown)
      moreover have "calls ?w' \<le> calls (snd (fetchWithRetry requestFn c (attempt + 1) ?w'))"
        by (rule calls_mono)
      moreover have "calls ?w' = calls w2"
        by (simp add: sleep_def setter_defs)
      ultimately show ?thesis using c1 c2 by simp
    next
      case False
      then have "\<exists>e. fetchWithRetry requestFn c attempt w = (Rejected e, ?w2)"
        by (auto simp: fetchWithRetry.simps [of requestFn c attempt w] Inl thrown Let_def
            split: option.splits)
      then show ?thesis
        using c1 c2 by (auto simp: setter_defs)
    qed
  qed
qed

lemma fetch_invokes:
  assumes "cache_miss c w"
  shows "calls w < calls (snd (fetch requestFn c w))"
proof -
  have "cache_miss c (setStatus Loading w)"
    using assms by (simp add: setStatus_def cache_miss_hook_update)
  then have "calls (setStatus Loading w) < calls (snd (fetchWithRetry requestFn c 0 (setStatus Loading w)))"
    by (rule cache_miss_invokes)
  then show ?thesis
    by (simp add: fetch_def setStatus_def)
qed

subsection \<open>Construction\<close>

text \<open>
  C7. With manual = true the initial status is Idle, the first render and every run of the
  effect invoke the request function zero times, and an explicit refetch() on a cache miss
  does invoke it. With manual = false the initial status is Loading and mounting runs
  fetch() on the initial state at once.
\<close>

theorem mount_manual:
  "(manual (destructure options) \<longrightarrow>
      status (hook (initial_state (destructure options) w)) = Idle
      \<and> auto_execute requestFn (destructure options) w' = w'
      \<and> calls (useApiRequest requestFn options w) = calls w
      \<and> (cache_miss (destructure options) w' \<longrightarrow>
            calls w' < calls (snd (fetch requestFn (destructure options) w'))))
   \<and> (\<not> manual (destructure options) \<longrightarrow>
      status (hook (initial_state (destructure options) w)) = Loading
      \<and> useApiRequest requestFn options w =
          snd (fetch requestFn (destructure options) (initial_state (destructure options) w)))"
  by (simp add: useApiRequest_def auto_execute_def initial_state_def Let_def getCachedData_frame
      case_prod_beta fetch_invokes)

text \<open>
  Mounted with manual = true on a fresh process, the hook is Idle and has made no request;
  mounted with no options it starts in Loading and makes one.
\<close>

theorem mount_manual_witness:
  "manual (destructure opts_manual)
   \<and> status (hook (initial_state (destructure opts_manual) world0)) = Idle
   \<and> calls (useApiRequest failing_request opts_manual world0) = 0
   \<and> \<not> manual (destructure opts_default)
   \<and> status (hook (initial_state (destructure opts_default) world0)) = Loading
   \<and> calls (useApiRequest failing_request opts_default world0) = 1"
proof -
  have m: "manual (destructure opts_manual)" "\<not> manual (destructure opts_default)"
    by (simp_all add: opts_manual_def opts_default_def destructure_def or_default_def)
  have "calls (snd (fetch failing_request (destructure opts_default)
                 (initial_state (destructure opts_default) world0))) = 1"
    by (simp add: initial_state_def ex_defs hook_defs fetchWithRetry.simps)
  then show ?thesis
    using m
      mount_manual [where options = opts_manual and w = world0 and w' = world0
        and requestFn = failing_request]
      mount_manual [where options = opts_default and w = world0 and w' = world0
        and requestFn = failing_request]
    by (simp add: world0_def)
qed

subsection \<open>A cache hit\<close>




subsection \<open>The retry counter after a success\<close>

lemma try_block_FromRequest:
  assumes "try_block requestFn c w = Inr (FromRequest v, w')"
  shows "retryCount (hook w') = 0 \<and> status (hook w') = Success \<and> data (hook w') = v
         \<and> isFetched (hook w')"
  using assms
  by (auto simp: try_block_def Let_def case_prod_beta setData_def setter_defs cache_store_def
      split: if_splits option.splits sum.splits)

lemma fetchWithRetry_FromRequest:
  "fetchWithRetry requestFn c attempt w = (FromRequest v, w') \<Longrightarrow>
     retryCount (hook w') = 0 \<and> status (hook w') = Success \<and> data (hook w') = v
     \<and> isFetched (hook w')"
proof (induction requestFn c attempt w rule: fetchWithRetry.induct)
  case (1 requestFn c attempt w)
  show ?case
  proof (cases "try_block requestFn c w")
    case (Inr returned)
    then have "try_block requestFn c w = Inr (FromRequest v, w')"
      using "1.prems" by (simp add: fetchWithRetry.simps [of requestFn c attempt w])
    then show ?thesis by (rule try_block_FromRequest)
  next
    case (Inl thrown)
    obtain err w1 where thrown: "thrown = (err, w1)" by (cases thrown)
    show ?thesis
      using "1.prems" "1.IH" [OF Inl [unfolded thrown] refl refl]
      by (auto simp: fetchWithRetry.simps [of requestFn c attempt w] Inl thrown Let_def
          split: option.splits if_splits)
  qed
qed

text \<open>
  C6. Whenever an invocation ends with a successful attempt of the request function
  (\<open>return result\<close>, line 202), the retry counter is 0 afterwards, whatever the state
  before the invocation and however many attempts failed before; status is Success and
  data is the result.
\<close>

theorem success_resets_retryCount:
  assumes "fst (fetch requestFn c w) = FromRequest v"
  shows "retryCount (hook (snd (fetch requestFn c w))) = 0
         \<and> status (hook (snd (fetch requestFn c w))) = Success
         \<and> data (hook (snd (fetch requestFn c w))) = v"
  using assms fetchWithRetry_FromRequest [of requestFn c 0 "setStatus Loading w" v "snd (fetch requestFn c w)"]
  by (simp add: fetch_def prod_eq_iff)

text \<open>
  Starting with the retry counter at 2 from an earlier invocation, the next one fails once
  more, then succeeds with 7: the counter is 0.
\<close>

theorem success_resets_retryCount_witness:
  "retryCount (hook world_failed) = 2
   \<and> fst (fetch flaky_request cfg_cached world_failed) = FromRequest (Num 7)
   \<and> retryCount (hook (snd (fetch flaky_request cfg_cached world_failed))) = 0"
proof -
  have h: "fst (fetch flaky_request cfg_cached world_failed) = FromRequest (Num 7)"
    by (simp add: world_failed_simps cfg_cached_def opts_default_def flaky_request_def hook_defs
        fetchWithRetry.simps)
  show ?thesis
    using h success_resets_retryCount [OF h] by (simp add: world_failed_simps)
qed

subsection \<open>An operation that always fails\<close>

lemma try_block_miss_fails:
  assumes "cache_miss c w" and "outcome (requestFn (calls w)) = Inl e"
  shows "\<exists>w1. try_block requestFn c w = Inl (e, w1) \<and> calls w1 = calls w + 1
           \<and> cache w1 = cache (snd (getCachedData c w)) \<and> now w \<le> now w1"
  using assms getCachedData_frame [of c w]
  by (simp add: try_block_def cache_miss_def case_prod_beta Let_def await_request_def sleep_def)

lemma failed_attempt_retries:
  assumes "cache_miss c w" and "outcome (requestFn (calls w)) = Inl e"
    and "call_cb (onError c) e = None" and "autoRetry c" and "int attempt < maxRetries c"
  shows "\<exists>w'. fetchWithRetry requestFn c attempt w = fetchWithRetry requestFn c (Suc attempt) w'
           \<and> cache_miss c w' \<and> calls w' = calls w + 1"
proof -
  obtain w1 where w1: "try_block requestFn c w = Inl (e, w1)" "calls w1 = calls w + 1"
      "cache w1 = cache (snd (getCachedData c w))" "now w \<le> now w1"
    using try_block_miss_fails [of c w requestFn e] assms(1,2) by blast
  let ?w' = "sleep (retryDelay c attempt)
               (setRetryCount (attempt + 1) (setIsFetched True (setStatus Error (setError e w1))))"
  have "fetchWithRetry requestFn c attempt w = fetchWithRetry requestFn c (Suc attempt) ?w'"
    using assms(3-5) w1(1) by (simp add: fetchWithRetry.simps [of requestFn c attempt w])
  moreover have "cache ?w' = cache (snd (getCachedData c w))" and "now w \<le> now ?w'"
    using w1(3,4) by (simp_all add: sleep_def setter_defs)
  then have "cache_miss c ?w'"
    using assms(1) cache_miss_persists by blast
  moreover have "calls ?w' = calls w + 1"
    using w1(2) by (simp add: sleep_def setter_defs)
  ultimately show ?thesis by blast
qed

lemma failed_attempt_rejects:
  assumes "cache_miss c w" and "outcome (requestFn (calls w)) = Inl e"
    and "call_cb (onError c) e = None" and "\<not> (autoRetry c \<and> int attempt < maxRetries c)"
  shows "\<exists>w'. fetchWithRetry requestFn c attempt w = (Rejected e, w') \<and> calls w' = calls w + 1
           \<and> status (hook w') = Error \<and> error (hook w') = e"
proof -
  obtain w1 where w1: "try_block requestFn c w = Inl (e, w1)" "calls w1 = calls w + 1"
    using try_block_miss_fails [of c w requestFn e] assms(1,2) by blast
  then show ?thesis
    using assms(3,4) by (auto simp: fetchWithRetry.simps [of requestFn c attempt w] setter_defs Let_def)
qed

text \<open>
  With autoRetry and maxRetries = 2, a request function that fails with the error objects
  0, 1, 2 in turn is invoked three times, and the promise rejects with object 2, the error of
  the last attempt, not with object 0, the error of the first.
\<close>

theorem always_failing_counterexample:
  "autoRetry cfg_retry2 \<and> maxRetries cfg_retry2 = 2
   \<and> outcome (failing_request 0) = Inl (Obj 0)
   \<and> calls (snd (fetch failing_request cfg_retry2 world0)) = 3
   \<and> promise (fst (fetch failing_request cfg_retry2 world0)) = Inl (Obj 2)
   \<and> promise (fst (fetch failing_request cfg_retry2 world0)) \<noteq> Inl (Obj 0)"
  by (simp add: ex_defs hook_defs fetchWithRetry.simps)

text \<open>
  C1 (amended). With autoRetry = true and maxRetries = 2, when the invocation starts on a
  cache miss and onError (if any) returns normally, a request function that always fails,
  with error \<open>err k\<close> at its k-th invocation, is invoked exactly 3 times, and the promise
  of fetch()/refetch() rejects with the unwrapped error of the last of the three attempts.
  The hook ends in status Error with that error. (When every attempt fails with the same
  error, this is the error of the first attempt.)
\<close>

theorem always_failing_three_calls:
  assumes "autoRetry c" and "maxRetries c = 2"
    and fails: "\<And>k. outcome (requestFn k) = Inl (err k)"
    and onError: "\<And>e. call_cb (onError c) e = None"
    and miss: "cache_miss c w"
  shows "calls (snd (fetch requestFn c w)) = calls w + 3
         \<and> promise (fst (fetch requestFn c w)) = Inl (err (calls w + 2))
         \<and> status (hook (snd (fetch requestFn c w))) = Error
         \<and> error (hook (snd (fetch requestFn c w))) = err (calls w + 2)"
proof -
  let ?w0 = "setStatus Loading w"
  have m0: "cache_miss c ?w0" and c0: "calls ?w0 = calls w"
    using miss by (simp_all add: setStatus_def cache_miss_hook_update)
  obtain w1 where w1: "fetchWithRetry requestFn c 0 ?w0 = fetchWithRetry requestFn c (Suc 0) w1"
      "cache_miss c w1" "calls w1 = calls w + 1"
    using failed_attempt_retries [of c ?w0 requestFn "err (calls ?w0)" 0] m0 fails onError
      assms(1,2) c0 by auto
  obtain w2 where w2: "fetchWithRetry requestFn c (Suc 0) w1 = fetchWithRetry requestFn c (Suc (Suc 0)) w2"
      "cache_miss c w2" "calls w2 = calls w + 2"
    using failed_attempt_retries [of c w1 requestFn "err (calls w1)" "Suc 0"] w1(2,3) fails onError
      assms(1,2) by auto
  obtain w3 where w3: "fetchWithRetry requestFn c (Suc (Suc 0)) w2 = (Rejected (err (calls w2)), w3)"
      "calls w3 = calls w2 + 1" "status (hook w3) = Error" "error (hook w3) = err (calls w2)"
    using failed_attempt_rejects [of c w2 requestFn "err (calls w2)" "Suc (Suc 0)"] w2(2) fails onError
      assms(2) by auto
  show ?thesis
    using w1(1) w2(1,3) w3 by (simp add: fetch_def)
qed

text \<open>A request function that always fails with the same error: three calls, that error.\<close>

theorem always_failing_three_calls_witness:
  "autoRetry cfg_retry2 \<and> maxRetries cfg_retry2 = 2 \<and> cache_miss cfg_retry2 world0
   \<and> outcome (timeout_request 0) = Inl (Str ''timeout'')
   \<and> calls (snd (fetch timeout_request cfg_retry2 world0)) = 3
   \<and> promise (fst (fetch timeout_request cfg_retry2 world0)) = Inl (Str ''timeout'')"
proof -
  have h: "autoRetry cfg_retry2" "maxRetries cfg_retry2 = 2"
      "\<And>k. outcome (timeout_request k) = Inl (Str ''timeout'')"
      "\<And>e. call_cb (onError cfg_retry2) e = None" "cache_miss cfg_retry2 world0"
    by (simp_all add: ex_defs hook_defs cache_miss_def)
  show ?thesis
    using h always_failing_three_calls [where c = cfg_retry2 and requestFn = timeout_request
        and err = "\<lambda>k. Str ''timeout''" and w = world0]
    by (simp add: world0_def)
qed

subsection \<open>data during an invocation\<close>

lemma try_block_data:
  assumes nothrow: "\<And>v. call_cb (onSuccess c) v = None"
  shows "case try_block requestFn c w of
           Inl (e, w1) \<Rightarrow>
             (\<exists>new. trace w1 = trace w @ new \<and> (\<forall>s\<in>set new. data s = data (hook w)))
             \<and> data (hook w1) = data (hook w)
         | Inr (r, w1) \<Rightarrow>
             (\<exists>new. trace w1 = trace w @ new \<and> (\<forall>s\<in>set new. data s = data (hook w)))
             \<and> promise r = Inr (data (hook w1))"
  using getCachedData_frame [of c w]
  by (auto simp: try_block_def Let_def case_prod_beta nothrow setData_def setter_defs cache_store_def
      sleep_def await_request_def split: sum.splits option.splits)

lemma fetchWithRetry_data:
  assumes nothrow: "\<And>v. call_cb (onSuccess c) v = None"
  shows "(\<exists>new. trace (snd (fetchWithRetry requestFn c attempt w)) = trace w @ new
            \<and> (\<forall>s\<in>set new. data s = data (hook w)))
         \<and> data (hook (snd (fetchWithRetry requestFn c attempt w))) =
             (case promise (fst (fetchWithRetry requestFn c attempt w)) of
                Inl e \<Rightarrow> data (hook w) | Inr v \<Rightarrow> v)"
  using nothrow
proof (induction requestFn c attempt w rule: fetchWithRetry.induct)
  case (1 requestFn c attempt w)
  note tb = try_block_data [where c = c and requestFn = requestFn and w = w, OF "1.prems"]
  show ?case
  proof (cases "try_block requestFn c w")
    case (Inr returned)
    then show ?thesis
      using tb by (auto simp: fetchWithRetry.simps [of requestFn c attempt w])
  next
    case (Inl thrown)
    obtain err w1 where thrown: "thrown = (err, w1)" by (cases thrown)
    obtain new1 where new1: "trace w1 = trace w @ new1" "\<forall>s\<in>set new1. data s = data (hook w)"
        "data (hook w1) = data (hook w)"
      using tb Inl thrown by auto
    let ?w2 = "setIsFetched True (setStatus Error (setError err w1))"
    let ?w' = "sleep (retryDelay c attempt) (setRetryCount (attempt + 1) ?w2)"
    show ?thesis
    proof (cases "call_cb (onError c) err = None \<and> autoRetry c \<and> int attempt < maxRetries c")
      case True
      then have eq: "fetchWithRetry requestFn c attempt w = fetchWithRetry requestFn c (attempt + 1) ?w'"
        by (simp add: fetchWithRetry.simps [of requestFn c attempt w] Inl thrown)
      have ih: "(\<exists>new. trace (snd (fetchWithRetry requestFn c (attempt + 1) ?w')) = trace ?w' @ new
                    \<and> (\<forall>s\<in>set new. data s = data (hook ?w')))
                \<and> data (hook (snd (fetchWithRetry requestFn c (attempt + 1) ?w'))) =
                    (case promise (fst (fetchWithRetry requestFn c (attempt + 1) ?w')) of
                       Inl e \<Rightarrow> data (hook ?w') | Inr v \<Rightarrow> v)"
        using "1.IH" [OF Inl [unfolded thrown] refl refl _ _ refl refl refl "1.prems"] True
        by simp
      have h': "data (hook ?w') = data (hook w)"
        using new1(3) by (simp add: sleep_def setter_defs)
      have t': "trace ?w' = trace w @ new1 @ [hook (setRetryCount (attempt + 1) ?w2)]"
        using new1(1) by (simp add: sleep_def setter_defs)
      have d': "data (hook (setRetryCount (attempt + 1) ?w2)) = data (hook w)"
        using new1(3) by (simp add: setter_defs)
      from ih obtain new2 where new2:
          "trace (snd (fetchWithRetry requestFn c (attempt + 1) ?w')) = trace ?w' @ new2"
          "\<forall>s\<in>set new2. data s = data (hook ?w')"
        by blast
      let ?new = "new1 @ [hook (setRetryCount (attempt + 1) ?w2)] @ new2"
      have "trace (snd (fetchWithRetry requestFn c attempt w)) = trace w @ ?new"
        using new2(1) t' eq by simp
      moreover have "\<forall>s\<in>set ?new. data s = data (hook w)"
        using new1(2) new2(2) h' d' by auto
      ultimately have traced: "\<exists>new. trace (snd (fetchWithRetry requestFn c attempt w)) = trace w @ new
                                \<and> (\<forall>s\<in>set new. data s = data (hook w))"
        by blast
      have "data (hook (snd (fetchWithRetry requestFn c attempt w))) =
              (case promise (fst (fetchWithRetry requestFn c attempt w)) of
                 Inl e \<Rightarrow> data (hook w) | Inr v \<Rightarrow> v)"
        using ih h' eq by (auto split: sum.splits)
      with traced show ?thesis by blast
    next
      case False
      then have "\<exists>e. fetchWithRetry requestFn c attempt w = (Rejected e, ?w2)"
        by (auto simp: fetchWithRetry.simps [of requestFn c attempt w] Inl thrown Let_def
            split: option.splits)
      then show ?thesis
        using new1 by (auto simp: setter_defs)
    qed
  qed
qed

text \<open>
  With data 1 from before and an onSuccess that throws, the request resolves with 7 and
  data becomes 7; the exception sends the invocation into a retry, so the fetch is still in
  flight with data 7, and data stays 7 although the promise rejects in the end.
\<close>

theorem invoke_keeps_data_counterexample:
  "call_cb (onSuccess cfg_throwing) (Num 7) = Some (Str ''boom'')
   \<and> data (hook world_one) = Num 1
   \<and> map data (in_flight world_one (snd (fetch seven_request cfg_throwing world_one))) =
       [Num 1, Num 7, Num 7]
   \<and> promise (fst (fetch seven_request cfg_throwing world_one)) = Inl (Str ''boom'')
   \<and> data (hook (snd (fetch seven_request cfg_throwing world_one))) = Num 7"
  by (simp add: world_one_def cfg_throwing_def seven_request_def opts_default_def world0_def
      in_flight_def hook_defs fetchWithRetry.simps)

text \<open>
  C4 (amended). From any state, an invocation whose onSuccess returns normally (or that has
  none) never clears data: at every suspension point of the invocation the observers see
  the data of before, and afterwards data is still that value when the promise rejects,
  and the resolved value (fetched, or taken from the cache through setData) when it
  resolves.
\<close>

theorem invoke_keeps_data:
  assumes "\<And>v. call_cb (onSuccess c) v = None"
  shows "trace (snd (fetch requestFn c w)) = trace w @ in_flight w (snd (fetch requestFn c w))
         \<and> (\<forall>s\<in>set (in_flight w (snd (fetch requestFn c w))). data s = data (hook w))
         \<and> data (hook (snd (fetch requestFn c w))) =
             (case promise (fst (fetch requestFn c w)) of
                Inl e \<Rightarrow> data (hook w) | Inr v \<Rightarrow> v)"
  using fetchWithRetry_data [where c = c and requestFn = requestFn and attempt = 0
      and w = "setStatus Loading w", OF assms]
  by (auto simp: fetch_def in_flight_def setStatus_def split: sum.splits)

text \<open>
  With data 7 from before and an expired cache entry, an invocation that fails three times
  passes five suspension points; data is 7 at each of them and at the end.
\<close>

theorem invoke_keeps_data_witness:
  "data (hook world_later) = Num 7
   \<and> map data (in_flight world_later (snd (fetch failing_request cfg_cached world_later))) =
       [Num 7, Num 7, Num 7, Num 7, Num 7]
   \<and> promise (fst (fetch failing_request cfg_cached world_later)) = Inl (Obj 5)
   \<and> data (hook (snd (fetch failing_request cfg_cached world_later))) = Num 7"
proof -
  have nothrow: "\<And>v. call_cb (onSuccess cfg_cached) v = None"
    by (simp add: cfg_cached_def opts_default_def hook_defs)
  have run: "promise (fst (fetch failing_request cfg_cached world_later)) = Inl (Obj 5)"
      "map data (in_flight world_later (snd (fetch failing_request cfg_cached world_later))) =
         [Num 7, Num 7, Num 7, Num 7, Num 7]"
    by (simp_all add: world_later_def world_set_simps in_flight_def cfg_cached_def
        opts_default_def failing_request_def hook_defs fetchWithRetry.simps)
  show ?thesis
    using run
      invoke_keeps_data [where c = cfg_cached and requestFn = failing_request
        and w = world_later, OF nothrow]
    by (simp add: world_later_def world_set_simps)
qed

subsection \<open>A falsy value in the cache\<close>

lemma miss_equiv_setters:
  assumes "miss_equiv k w1 w2"
  shows "miss_equiv k (setDataState v w1) (setDataState v w2)"
    and "miss_equiv k (setStatus s w1) (setStatus s w2)"
    and "miss_equiv k (setError e w1) (setError e w2)"
    and "miss_equiv k (setRetryCount n w1) (setRetryCount n w2)"
    and "miss_equiv k (setIsFetched b w1) (setIsFetched b w2)"
    and "miss_equiv k (sleep ms w1) (sleep ms w2)"
    and "miss_equiv k (cache_store k v w1) (cache_store k v w2)"
  using assms by (simp_all add: miss_equiv_def setter_defs sleep_def cache_store_def)

lemma miss_equiv_await:
  assumes "miss_equiv k w1 w2"
  shows "fst (await_request requestFn w1) = fst (await_request requestFn w2)
         \<and> miss_equiv k (snd (await_request requestFn w1)) (snd (await_request requestFn w2))"
  using assms by (simp add: miss_equiv_def await_request_def Let_def)

lemma miss_equiv_setData:
  assumes "usable_key c = Some k" and "miss_equiv k w1 w2"
  shows "miss_equiv k (setData c v w1) (setData c v w2)"
  using assms by (simp add: setData_def Let_def miss_equiv_setters)

lemma miss_equiv_getCachedData:
  assumes "usable_key c = Some k" and "miss_equiv k w1 w2"
  shows "(truthy (fst (getCachedData c w1)) \<longleftrightarrow> truthy (fst (getCachedData c w2)))
         \<and> (truthy (fst (getCachedData c w1)) \<longrightarrow> fst (getCachedData c w1) = fst (getCachedData c w2))
         \<and> miss_equiv k (snd (getCachedData c w1)) (snd (getCachedData c w2))"
proof (cases "cache w1 k")
  case None
  note a1 = getCachedData_absent [OF assms(1) None]
  show ?thesis
  proof (cases "cache w2 k")
    case None
    then show ?thesis
      using a1 getCachedData_absent [OF assms(1) None] assms(2) by simp
  next
    case (Some item2)
    then show ?thesis
      using a1 getCachedData_item [OF assms(1) Some] assms(2) None
      by (auto simp: miss_equiv_def falsy_entry_def cache_delete_def)
  qed
next
  case (Some item1)
  note i1 = getCachedData_item [OF assms(1) Some]
  show ?thesis
  proof (cases "cache w2 k")
    case None
    then show ?thesis
      using i1 getCachedData_absent [OF assms(1) None] assms(2) Some
      by (auto simp: miss_equiv_def falsy_entry_def cache_delete_def)
  next
    case (Some item2)
    then show ?thesis
      using i1 getCachedData_item [OF assms(1) Some] assms(2) \<open>cache w1 k = Some item1\<close>
      by (auto simp: miss_equiv_def falsy_entry_def cache_delete_def)
  qed
qed

lemma miss_equiv_try_block:
  assumes key: "usable_key c = Some k" and equiv: "miss_equiv k w1 w2"
  shows "case try_block requestFn c w1 of
           Inl (e, u1) \<Rightarrow> (\<exists>u2. try_block requestFn c w2 = Inl (e, u2) \<and> miss_equiv k u1 u2)
         | Inr (r, u1) \<Rightarrow> (\<exists>u2. try_block requestFn c w2 = Inr (r, u2) \<and> miss_equiv k u1 u2)"
proof -
  obtain v1 u1 where g1: "getCachedData c w1 = (v1, u1)" by (cases "getCachedData c w1")
  obtain v2 u2 where g2: "getCachedData c w2 = (v2, u2)" by (cases "getCachedData c w2")
  note m = miss_equiv_getCachedData [OF key equiv, unfolded g1 g2 fst_conv snd_conv]
  have g: "truthy v1 \<longleftrightarrow> truthy v2" "truthy v1 \<longrightarrow> v1 = v2" "miss_equiv k u1 u2"
    using m by blast+
  show ?thesis
  proof (cases "truthy v1")
    case True
    then have v2: "v2 = v1" "truthy v2" using g by simp_all
    let ?x1 = "setStatus Success (setData c v1 u1)"
    let ?x2 = "setStatus Success (setData c v1 u2)"
    have x: "miss_equiv k ?x1 ?x2"
      by (intro miss_equiv_setters miss_equiv_setData key g(3))
    have t1: "try_block requestFn c w1 =
                (case call_cb (onSuccess c) v1 of
                   Some thrown \<Rightarrow> Inl (thrown, ?x1) | None \<Rightarrow> Inr (FromCache v1, ?x1))"
      using True g1 by (simp add: try_block_def Let_def)
    have t2: "try_block requestFn c w2 =
                (case call_cb (onSuccess c) v1 of
                   Some thrown \<Rightarrow> Inl (thrown, ?x2) | None \<Rightarrow> Inr (FromCache v1, ?x2))"
      using v2 g2 by (simp add: try_block_def Let_def)
    show ?thesis
      unfolding t1 t2 using x by (cases "call_cb (onSuccess c) v1") simp_all
  next
    case False
    then have f2: "\<not> truthy v2" using g(1) by simp
    let ?s1 = "if delay c > 0 then sleep (delay c) u1 else u1"
    let ?s2 = "if delay c > 0 then sleep (delay c) u2 else u2"
    have s: "miss_equiv k ?s1 ?s2"
      using g(3) by (simp add: miss_equiv_setters)
    obtain r a1 where a1: "await_request requestFn ?s1 = (r, a1)"
      by (cases "await_request requestFn ?s1")
    obtain r' a2 where a2: "await_request requestFn ?s2 = (r', a2)"
      by (cases "await_request requestFn ?s2")
    have a: "r' = r" "miss_equiv k a1 a2"
      using miss_equiv_await [where requestFn = requestFn, OF s] a1 a2 by simp_all
    show ?thesis
    proof (cases r)
      case (Inl err)
      have "try_block requestFn c w1 = Inl (err, a1)"
        using False g1 a1 Inl by (simp add: try_block_def Let_def)
      moreover have "try_block requestFn c w2 = Inl (err, a2)"
        using f2 g2 a2 a(1) Inl by (simp add: try_block_def Let_def)
      ultimately show ?thesis using a(2) by simp
    next
      case (Inr result)
      let ?y1 = "setIsFetched True (setStatus Success (setData c result a1))"
      let ?y2 = "setIsFetched True (setStatus Success (setData c result a2))"
      have y: "miss_equiv k ?y1 ?y2"
        by (intro miss_equiv_setters miss_equiv_setData key a(2))
      let ?z1 = "setRetryCount 0 (cache_store k result ?y1)"
      let ?z2 = "setRetryCount 0 (cache_store k result ?y2)"
      have z: "miss_equiv k ?z1 ?z2"
        by (intro miss_equiv_setters y)
      have t1: "try_block requestFn c w1 =
                  (case call_cb (onSuccess c) result of
                     Some thrown \<Rightarrow> Inl (thrown, ?y1) | None \<Rightarrow> Inr (FromRequest result, ?z1))"
        using False g1 a1 Inr key by (simp add: try_block_def Let_def split: option.splits)
      have t2: "try_block requestFn c w2 =
                  (case call_cb (onSuccess c) result of
                     Some thrown \<Rightarrow> Inl (thrown, ?y2) | None \<Rightarrow> Inr (FromRequest result, ?z2))"
        using f2 g2 a2 a(1) Inr key by (simp add: try_block_def Let_def split: option.splits)
      show ?thesis
        unfolding t1 t2 using y z by (cases "call_cb (onSuccess c) result") simp_all
    qed
  qed
qed

lemma miss_equiv_fetchWithRetry:
  assumes "usable_key c = Some k" and "miss_equiv k w1 w2"
  shows "fst (fetchWithRetry requestFn c attempt w1) = fst (fetchWithRetry requestFn c attempt w2)
         \<and> miss_equiv k (snd (fetchWithRetry requestFn c attempt w1))
             (snd (fetchWithRetry requestFn c attempt w2))"
  using assms
proof (induction requestFn c attempt w1 arbitrary: w2 rule: fetchWithRetry.induct)
  case (1 requestFn c attempt w1)
  note tb = miss_equiv_try_block [where requestFn = requestFn, OF "1.prems"]
  show ?case
  proof (cases "try_block requestFn c w1")
    case (Inr returned)
    then show ?thesis
      using tb
      by (auto simp: fetchWithRetry.simps [of requestFn c attempt w1]
          fetchWithRetry.simps [of requestFn c attempt w2])
  next
    case (Inl thrown)
    obtain err u1 where thrown: "thrown = (err, u1)" by (cases thrown)
    obtain u2 where u2: "try_block requestFn c w2 = Inl (err, u2)" "miss_equiv k u1 u2"
      using tb Inl thrown by auto
    let ?f1 = "setIsFetched True (setStatus Error (setError err u1))"
    let ?f2 = "setIsFetched True (setStatus Error (setError err u2))"
    have f: "miss_equiv k ?f1 ?f2"
      using u2(2) by (simp add: miss_equiv_setters)
    show ?thesis
    proof (cases "call_cb (onError c) err = None \<and> autoRetry c \<and> int attempt < maxRetries c")
      case True
      let ?n1 = "sleep (retryDelay c attempt) (setRetryCount (attempt + 1) ?f1)"
      let ?n2 = "sleep (retryDelay c attempt) (setRetryCount (attempt + 1) ?f2)"
      have n: "miss_equiv k ?n1 ?n2"
        using f by (simp add: miss_equiv_setters)
      have "fetchWithRetry requestFn c attempt w1 = fetchWithRetry requestFn c (attempt + 1) ?n1"
        using True by (simp add: fetchWithRetry.simps [of requestFn c attempt w1] Inl thrown)
      moreover have "fetchWithRetry requestFn c attempt w2 = fetchWithRetry requestFn c (attempt + 1) ?n2"
        using True by (simp add: fetchWithRetry.simps [of requestFn c attempt w2] u2(1))
      moreover have "fst (fetchWithRetry requestFn c (attempt + 1) ?n1) =
                       fst (fetchWithRetry requestFn c (attempt + 1) ?n2)
                     \<and> miss_equiv k (snd (fetchWithRetry requestFn c (attempt + 1) ?n1))
                          (snd (fetchWithRetry requestFn c (attempt + 1) ?n2))"
        using "1.IH" [OF Inl [unfolded thrown] refl refl _ _ refl refl refl "1.prems"(1) n] True
        by simp
      ultimately show ?thesis by simp
    next
      case False
      then show ?thesis
        using f
        by (auto simp: fetchWithRetry.simps [of requestFn c attempt w1]
            fetchWithRetry.simps [of requestFn c attempt w2] Inl thrown u2(1) Let_def
            split: option.splits)
    qed
  qed
qed

text \<open>
  C9. When caching is enabled under the key k and the cache holds a falsy value v for k
  (0, the empty string, false; also when unexpired, where the lookup does return v):
  the initial data is initialData, and fetch() behaves as on a cache miss: it invokes the
  request function, and its result, the hook state, the clock, the number of invocations
  and the states seen at suspension points are those of the same fetch() on the world
  without the entry.
\<close>

theorem falsy_cached_value_is_a_miss:
  assumes key: "usable_key c = Some k"
    and entry: "cache w k = Some (CacheItem v t0)"
    and falsy: "\<not> truthy v"
  shows "(now w - t0 \<le> cacheTTL c \<longrightarrow> fst (getCachedData c w) = v)
         \<and> data (hook (initial_state c w)) = initialData c
         \<and> observed (fetch requestFn c w) =
             observed (fetch requestFn c (w\<lparr>cache := (cache w)(k := None)\<rparr>))
         \<and> calls w < calls (snd (fetch requestFn c w))"
proof -
  have get: "now w - t0 \<le> cacheTTL c \<longrightarrow> fst (getCachedData c w) = v"
    using key entry by (simp add: lookup_defs Let_def)
  have miss: "cache_miss c w"
    using key entry falsy by (simp add: cache_miss_def lookup_defs Let_def)
  then have init: "data (hook (initial_state c w)) = initialData c"
    by (simp add: initial_state_def cache_miss_def case_prod_beta)
  let ?w1 = "setStatus Loading w"
  let ?w2 = "setStatus Loading (w\<lparr>cache := (cache w)(k := None)\<rparr>)"
  have "miss_equiv k ?w1 ?w2"
    using entry falsy by (simp add: miss_equiv_def setStatus_def falsy_entry_def)
  then have "fst (fetchWithRetry requestFn c 0 ?w1) = fst (fetchWithRetry requestFn c 0 ?w2)
             \<and> miss_equiv k (snd (fetchWithRetry requestFn c 0 ?w1)) (snd (fetchWithRetry requestFn c 0 ?w2))"
    using miss_equiv_fetchWithRetry [OF key] by blast
  then have obs: "observed (fetch requestFn c w) =
                    observed (fetch requestFn c (w\<lparr>cache := (cache w)(k := None)\<rparr>))"
    by (simp add: observed_def fetch_def miss_equiv_def)
  have "cache_miss c ?w1"
    using miss by (simp add: setStatus_def cache_miss_hook_update)
  then have "calls ?w1 < calls (snd (fetchWithRetry requestFn c 0 ?w1))"
    by (rule cache_miss_invokes)
  then have "calls w < calls (snd (fetch requestFn c w))"
    by (simp add: fetch_def setStatus_def)
  with get init obs show ?thesis by blast
qed

text \<open>
  After a request resolved with 0, the cache holds 0 for "u1"; a hook constructed then
  starts with data null, and the next invocation calls the request function again.
\<close>

theorem falsy_cached_value_is_a_miss_witness:
  "usable_key cfg_cached = Some ''u1''
   \<and> cache world_zero ''u1'' = Some (CacheItem (Num 0) 5)
   \<and> \<not> truthy (Num 0)
   \<and> fst (getCachedData cfg_cached world_zero) = Num 0
   \<and> data (hook (initial_state cfg_cached world_zero)) = Null
   \<and> calls world_zero = 1
   \<and> calls (snd (fetch zero_request cfg_cached world_zero)) = 2
   \<and> observed (fetch zero_request cfg_cached world_zero) =
       observed (fetch zero_request cfg_cached (world_zero\<lparr>cache := (cache world_zero)(''u1'' := None)\<rparr>))"
proof -
  have key: "usable_key cfg_cached = Some ''u1''"
    by (simp add: cfg_cached_def opts_default_def hook_defs)
  have entry: "cache world_zero ''u1'' = Some (CacheItem (Num 0) 5)"
    by (simp add: world_zero_simps)
  have falsy: "\<not> truthy (Num 0)" by simp
  have ttl: "now world_zero - 5 \<le> cacheTTL cfg_cached" "initialData cfg_cached = Null"
    by (simp_all add: world_zero_simps cfg_cached_def opts_default_def hook_defs)
  have run: "calls (snd (fetch zero_request cfg_cached world_zero)) = 2"
    by (simp add: world_zero_simps cfg_cached_def opts_default_def zero_request_def hook_defs
        fetchWithRetry.simps)
  show ?thesis
    using key entry ttl run
      falsy_cached_value_is_a_miss [where requestFn = zero_request, OF key entry falsy]
    by (simp add: world_zero_simps)
qed

end
